theory Spec2Isabelle
  imports Main
begin

section \<open>The fetch server (servers/fetch/main.py)\<close>

text \<open>
  A shallow embedding of the fetch tool: the robots check, the retrieval of the target,
  the branch on the content type, the HTML simplification and the pagination of the
  result. A Python \<open>str\<close> is a list of characters, one element per code point; the
  functions on slices and lengths are polymorphic in the element type. Python integers
  are unbounded and are modelled as \<open>int\<close>. An exception is a value of type \<open>exn\<close>;
  a call that may raise returns \<open>exn + 'a\<close> with \<open>Inl\<close> for the exception.
\<close>

subsection \<open>Python strings\<close>

text \<open>
  \<open>len(s)\<close> is \<open>int (length s)\<close>. A slice \<open>s[i:j]\<close> with step 1 adjusts each bound as
  CPython does: a negative bound counts from the end and is clamped at 0, a bound beyond
  the end is clamped at the length, and the slice is empty when the upper bound does not
  exceed the lower one. Slicing never raises.
\<close>

definition py_slice :: "'a list \<Rightarrow> int \<Rightarrow> int \<Rightarrow> 'a list" where
  "py_slice s i j =
     (let n = int (length s);
          lo = (if i < 0 then max (i + n) 0 else min i n);
          hi = (if j < 0 then max (j + n) 0 else min j n)
      in take (nat (hi - lo)) (drop (nat lo) s))"

text \<open>
  \<open>str.lower()\<close> on the code points below 256 (an HTTP header value is decoded as
  Latin-1): the ASCII capitals and the Latin-1 capitals \<open>0xC0..0xDE\<close> other than the
  multiplication sign \<open>0xD7\<close> move up by 32; every other character stays.
\<close>

definition py_lower_char :: "char \<Rightarrow> char" where
  "py_lower_char c =
     (let n = (of_char c :: nat)
      in if (65 \<le> n \<and> n \<le> 90) \<or> (192 \<le> n \<and> n \<le> 222 \<and> n \<noteq> 215)
         then char_of (n + 32) else c)"

definition py_lower :: "string \<Rightarrow> string" where
  "py_lower s = map py_lower_char s"

text \<open>
  \<open>sub in s\<close> on strings: some position of \<open>s\<close> (the end included, for the empty
  \<open>sub\<close>) starts a copy of \<open>sub\<close>.
\<close>

definition startswith :: "'a list \<Rightarrow> 'a list \<Rightarrow> bool" where
  "startswith s sub = (take (length sub) s = sub)"

fun str_contains :: "'a list \<Rightarrow> 'a list \<Rightarrow> bool" where
  "str_contains sub [] = (sub = [])"
| "str_contains sub (c # cs) = (startswith (c # cs) sub \<or> str_contains sub cs)"

subsection \<open>Responses, exceptions and the libraries the server calls\<close>

text \<open>
  A \<open>requests\<close> response, as far as the server reads it: the status code, the headers
  and \<open>response.text\<close>. The headers are the store of the case-insensitive dictionary of
  \<open>requests\<close>: each entry is keyed by the lower-cased header name.
\<close>

record response =
  status_code :: int
  headers :: "(string \<times> string) list"
  resp_text :: string

text \<open>
  The exceptions (all subclasses of \<open>Exception\<close>): the \<open>ValueError\<close> the server raises
  itself, the \<open>HTTPError\<close> of \<open>raise_for_status\<close>, which holds the response it was raised
  for, a failure of the connection, and any other exception of a library.
\<close>

datatype exn =
    ValueError string
  | HTTPError response
  | ConnectionError string
  | OtherError string

text \<open>The six components of \<open>urllib.parse.urlparse\<close>.\<close>

record parse_result =
  scheme :: string
  netloc :: string
  path :: string
  params :: string
  query :: string
  fragment :: string

text \<open>
  The dictionary returned by \<open>readabilipy\<close>; the server reads its key \<open>content\<close> only,
  which holds \<open>None\<close> or a string.
\<close>

record simple_json =
  content :: "string option"

datatype heading_style = ATX | ATX_CLOSED | SETEXT

text \<open>A GET request: the URL and the headers the caller passes to \<open>requests.get\<close>.\<close>

type_synonym request = "string \<times> (string \<times> string) list"

text \<open>
  What lies outside the repository is a parameter of the model: the URL parser and the
  table \<open>uses_netloc\<close> of \<open>urllib.parse\<close>, the network (the outcome of a GET request),
  the robots parser \<open>Protego\<close> (its result type is the type parameter; \<open>can_fetch\<close> takes
  its two positional arguments in the order of the call), \<open>readabilipy\<close> and
  \<open>markdownify\<close>. Each of them may raise. One run of \<open>fetch\<close> issues at most two
  GET requests, which differ in their headers, so a function of the request describes
  the network during one run.
\<close>

record 'rp world =
  urlparse :: "string \<Rightarrow> exn + parse_result"
  uses_netloc :: "string list"
  http_get :: "request \<Rightarrow> exn + response"
  protego_parse :: "string \<Rightarrow> exn + 'rp"
  protego_can_fetch :: "'rp \<Rightarrow> string \<Rightarrow> string \<Rightarrow> exn + bool"
  simple_json_from_html_string :: "string \<Rightarrow> bool \<Rightarrow> exn + simple_json"
  markdownify :: "string \<Rightarrow> heading_style \<Rightarrow> exn + string"

text \<open>
  \<open>requests.get\<close>: the state is the list of the GET requests issued so far, and a call
  appends its request whether or not it fails.
\<close>

definition requests_get ::
  "'rp world \<Rightarrow> string \<Rightarrow> (string \<times> string) list \<Rightarrow> request list
     \<Rightarrow> (exn + response) \<times> request list" where
  "requests_get env url hdrs lg = (http_get env (url, hdrs), lg @ [(url, hdrs)])"

text \<open>
  \<open>Response.raise_for_status\<close> of \<open>requests\<close>: an \<open>HTTPError\<close> holding the response for a
  status code from 400 to 599, nothing otherwise.
\<close>

definition raise_for_status :: "response \<Rightarrow> exn option" where
  "raise_for_status r =
     (if 400 \<le> status_code r \<and> status_code r < 600 then Some (HTTPError r) else None)"

text \<open>\<open>headers.get(key, default)\<close> on the case-insensitive dictionary.\<close>

definition headers_get :: "(string \<times> string) list \<Rightarrow> string \<Rightarrow> string \<Rightarrow> string" where
  "headers_get hs key dflt =
     (case map_of hs (py_lower key) of None \<Rightarrow> dflt | Some v \<Rightarrow> v)"

text \<open>
  \<open>urllib.parse.urlunsplit\<close> and \<open>urlunparse\<close>: the authority part \<open>//netloc\<close> is written
  when the netloc is not empty, when the scheme is one that uses a netloc, or when the
  path starts with two slashes.
\<close>

definition urlunsplit ::
  "'rp world \<Rightarrow> string \<times> string \<times> string \<times> string \<times> string \<Rightarrow> string" where
  "urlunsplit env comps =
     (case comps of (sch, loc, url, qry, frag) \<Rightarrow>
        (let url1 = (if loc \<noteq> [] \<or> (sch \<noteq> [] \<and> sch \<in> set (uses_netloc env))
                        \<or> take 2 url = ''//''
                     then ''//'' @ loc @
                          (if url \<noteq> [] \<and> take 1 url \<noteq> ''/'' then ''/'' @ url else url)
                     else url);
             url2 = (if sch \<noteq> [] then sch @ '':'' @ url1 else url1);
             url3 = (if qry \<noteq> [] then url2 @ ''?'' @ qry else url2)
         in if frag \<noteq> [] then url3 @ ''#'' @ frag else url3))"

definition urlunparse ::
  "'rp world \<Rightarrow> string \<times> string \<times> string \<times> string \<times> string \<times> string \<Rightarrow> string" where
  "urlunparse env comps =
     (case comps of (sch, loc, url, prm, qry, frag) \<Rightarrow>
        urlunsplit env (sch, loc, (if prm \<noteq> [] then url @ '';'' @ prm else url), qry, frag))"

subsection \<open>The server\<close>

definition DEFAULT_USER_AGENT_AUTONOMOUS :: string where
  "DEFAULT_USER_AGENT_AUTONOMOUS =
     ''ModelContextProtocol/1.0 (Autonomous; +https://github.com/modelcontextprotocol/servers)''"

definition DEFAULT_USER_AGENT_MANUAL :: string where
  "DEFAULT_USER_AGENT_MANUAL =
     ''ModelContextProtocol/1.0 (User-Specified; +https://github.com/modelcontextprotocol/servers)''"

definition simplify_failed :: string where
  "simplify_failed = ''<e>Page failed to be simplified from HTML<e>''"

text \<open>
  \<open>extract_content_from_html\<close>: \<open>not ret["content"]\<close> holds for \<open>None\<close> and for the empty
  string.
\<close>

definition extract_content_from_html :: "'rp world \<Rightarrow> string \<Rightarrow> exn + string" where
  "extract_content_from_html env html =
     (case simple_json_from_html_string env html True of
        Inl e \<Rightarrow> Inl e
      | Inr ret \<Rightarrow>
          (case content ret of
             None \<Rightarrow> Inr simplify_failed
           | Some c \<Rightarrow> if c = [] then Inr simplify_failed else markdownify env c ATX))"

definition get_robots_txt_url :: "'rp world \<Rightarrow> string \<Rightarrow> exn + string" where
  "get_robots_txt_url env url =
     (case urlparse env url of
        Inl e \<Rightarrow> Inl e
      | Inr parsed \<Rightarrow>
          Inr (urlunparse env (scheme parsed, netloc parsed, ''/robots.txt'', [], [], [])))"

definition not_allowed_message :: "string \<Rightarrow> string \<Rightarrow> string" where
  "not_allowed_message url user_agent =
     ''URL '' @ url @ '' is not allowed to be fetched by '' @ user_agent
       @ '' according to robots.txt''"

text \<open>
  The body of the \<open>try\<close> statement of \<open>check_may_autonomously_fetch_url\<close>: the GET of the
  robots document (no headers are passed), its parse, the question to the parser, and
  the \<open>ValueError\<close> raised on a refusal.
\<close>

definition check_try_body ::
  "'rp world \<Rightarrow> string \<Rightarrow> string \<Rightarrow> string \<Rightarrow> request list
     \<Rightarrow> (exn + unit) \<times> request list" where
  "check_try_body env robots_txt_url url user_agent lg =
     (case requests_get env robots_txt_url [] lg of
        (Inl e, lg1) \<Rightarrow> (Inl e, lg1)
      | (Inr resp, lg1) \<Rightarrow>
          (case protego_parse env (resp_text resp) of
             Inl e \<Rightarrow> (Inl e, lg1)
           | Inr rp \<Rightarrow>
               (case protego_can_fetch env rp user_agent url of
                  Inl e \<Rightarrow> (Inl e, lg1)
                | Inr allowed \<Rightarrow>
                    if \<not> allowed
                    then (Inl (ValueError (not_allowed_message url user_agent)), lg1)
                    else (Inr (), lg1))))"

text \<open>
  \<open>check_may_autonomously_fetch_url\<close>: the robots URL is computed before the \<open>try\<close>, so
  an exception of the URL parser leaves the function; \<open>except Exception: pass\<close> ends every
  exception of the body, and the function returns \<open>None\<close>.
\<close>

definition check_may_autonomously_fetch_url ::
  "'rp world \<Rightarrow> string \<Rightarrow> string \<Rightarrow> request list \<Rightarrow> (exn + unit) \<times> request list" where
  "check_may_autonomously_fetch_url env url user_agent lg =
     (case get_robots_txt_url env url of
        Inl e \<Rightarrow> (Inl e, lg)
      | Inr robots_txt_url \<Rightarrow>
          (case check_try_body env robots_txt_url url user_agent lg of
             (Inl e, lg1) \<Rightarrow> (Inr (), lg1)
           | (Inr u, lg1) \<Rightarrow> (Inr (), lg1)))"

definition fetch_url ::
  "'rp world \<Rightarrow> string \<Rightarrow> string \<Rightarrow> bool \<Rightarrow> request list
     \<Rightarrow> (exn + string) \<times> request list" where
  "fetch_url env url user_agent force_raw lg =
     (case requests_get env url [(''User-Agent'', user_agent)] lg of
        (Inl e, lg1) \<Rightarrow> (Inl e, lg1)
      | (Inr resp, lg1) \<Rightarrow>
          (case raise_for_status resp of
             Some e \<Rightarrow> (Inl e, lg1)
           | None \<Rightarrow>
               (let content_type = py_lower (headers_get (headers resp) ''content-type'' [])
                in if \<not> force_raw \<and> str_contains ''text/html'' content_type
                   then (extract_content_from_html env (resp_text resp), lg1)
                   else (Inr (resp_text resp), lg1))))"

text \<open>
  The last lines of \<open>fetch\<close> (the test \<open>start_index >= len(content)\<close> and the slice
  \<open>content[start_index : start_index + max_length]\<close>): the window of the content that
  is returned. The tool function takes \<open>max_length\<close> and \<open>start_index\<close> as plain
  integers; the class \<open>Fetch\<close>, which declares their ranges, is not used by it, so the
  model puts no bound on them.
\<close>

definition paginate :: "'a list \<Rightarrow> int \<Rightarrow> int \<Rightarrow> 'a list" where
  "paginate cont start_index max_length =
     (if start_index \<ge> int (length cont) then []
      else py_slice cont start_index (start_index + max_length))"

definition fetch ::
  "'rp world \<Rightarrow> string \<Rightarrow> int \<Rightarrow> int \<Rightarrow> bool \<Rightarrow> request list
     \<Rightarrow> (exn + string) \<times> request list" where
  "fetch env url max_length start_index raw lg =
     (case check_may_autonomously_fetch_url env url DEFAULT_USER_AGENT_AUTONOMOUS lg of
        (Inl e, lg1) \<Rightarrow> (Inl e, lg1)
      | (Inr u, lg1) \<Rightarrow>
          (case fetch_url env url DEFAULT_USER_AGENT_AUTONOMOUS raw lg1 of
             (Inl e, lg2) \<Rightarrow> (Inl e, lg2)
           | (Inr cont, lg2) \<Rightarrow> (Inr (paginate cont start_index max_length), lg2)))"

subsection \<open>The specification's vocabulary\<close>

text \<open>
  The content classes of the specification, and its reading of the branch on the content
  type: the class is \<open>Html\<close> when the header is present and some part of its value is
  \<open>text/html\<close> up to the case of the letters, and \<open>Other\<close> otherwise. These definitions
  follow the words of the specification; the theorems compare them with \<open>fetch_url\<close>.
\<close>

datatype content_class = Html | Other

definition contains_ci :: "string \<Rightarrow> string \<Rightarrow> bool" where
  "contains_ci sub v = (\<exists>pre mid suf. v = pre @ mid @ suf \<and> py_lower mid = py_lower sub)"

definition classify :: "string option \<Rightarrow> content_class" where
  "classify h = (case h of None \<Rightarrow> Other
                 | Some v \<Rightarrow> if contains_ci ''text/html'' v then Html else Other)"

text \<open>
  The robots document of a URL is undeterminable, in the words of the specification, when
  its retrieval fails, when its status is not 200, or when its parse fails.
\<close>

definition robots_undeterminable :: "'rp world \<Rightarrow> string \<Rightarrow> bool" where
  "robots_undeterminable env robots_txt_url =
     (case http_get env (robots_txt_url, []) of
        Inl e \<Rightarrow> True
      | Inr resp \<Rightarrow>
          status_code resp \<noteq> 200 \<or>
          (case protego_parse env (resp_text resp) of Inl e \<Rightarrow> True | Inr rp \<Rightarrow> False))"

subsection \<open>A concrete world for the examples\<close>

text \<open>
  One site, \<open>example.com\<close>, serving a robots document and one page. The URL parser knows
  the URL of the page only; the robots parser keeps the text of the document and refuses
  when the text holds \<open>Disallow: /\<close>; the readability step finds content when the
  document holds a paragraph tag, and the Markdown step returns its input. The table
  \<open>uses_netloc\<close> is the one of CPython 3.11.
\<close>

definition demo_url :: string where
  "demo_url = ''https://example.com/page?q=1#top''"

definition demo_robots_url :: string where
  "demo_robots_url = ''https://example.com/robots.txt''"

definition demo_urlparse :: "string \<Rightarrow> exn + parse_result" where
  "demo_urlparse u =
     (if u = demo_url
      then Inr \<lparr>scheme = ''https'', netloc = ''example.com'', path = ''/page'',
                params = [], query = ''q=1'', fragment = ''top''\<rparr>
      else Inl (ValueError ''Invalid URL''))"

definition demo_world :: "(exn + response) \<Rightarrow> (exn + response) \<Rightarrow> string world" where
  "demo_world robots target =
     \<lparr>urlparse = demo_urlparse,
      uses_netloc = ['''', ''ftp'', ''http'', ''gopher'', ''nntp'', ''telnet'', ''imap'',
                     ''wais'', ''file'', ''mms'', ''https'', ''shttp'', ''snews'',
                     ''prospero'', ''rtsp'', ''rtsps'', ''rtspu'', ''rsync'', ''svn'',
                     ''svn+ssh'', ''sftp'', ''nfs'', ''git'', ''git+ssh'', ''ws'', ''wss''],
      http_get = (\<lambda>req. if req = (demo_robots_url, []) then robots
                         else if fst req = demo_url then target
                         else Inl (ConnectionError ''unreachable'')),
      protego_parse = (\<lambda>t. Inr t),
      protego_can_fetch = (\<lambda>rp a b. Inr (\<not> str_contains ''Disallow: /'' rp)),
      simple_json_from_html_string =
        (\<lambda>html use_readability.
           Inr \<lparr>content = (if str_contains ''<p>'' html then Some html else None)\<rparr>),
      markdownify = (\<lambda>c style. Inr c)\<rparr>"

definition robots_deny_all :: response where
  "robots_deny_all =
     \<lparr>status_code = 200, headers = [(''content-type'', ''text/plain'')],
      resp_text = ''User-agent: *\<newline>Disallow: /''\<rparr>"

definition robots_allow_all :: response where
  "robots_allow_all =
     \<lparr>status_code = 200, headers = [(''content-type'', ''text/plain'')],
      resp_text = ''User-agent: *\<newline>Allow: /''\<rparr>"

definition json_page :: "int \<Rightarrow> response" where
  "json_page st =
     \<lparr>status_code = st, headers = [(''content-type'', ''application/json'')],
      resp_text = ''0123456789ABCDEF''\<rparr>"

definition html_page :: "string \<Rightarrow> response" where
  "html_page body =
     \<lparr>status_code = 200, headers = [(''content-type'', ''Text/HTML; charset=utf-8'')],
      resp_text = body\<rparr>"

definition deny_world :: "string world" where
  "deny_world = demo_world (Inr robots_deny_all) (Inr (json_page 200))"

definition allow_world :: "response \<Rightarrow> string world" where
  "allow_world target = demo_world (Inr robots_allow_all) (Inr target)"

definition offline_robots_world :: "string world" where
  "offline_robots_world =
     demo_world (Inl (ConnectionError ''connection refused'')) (Inr (json_page 200))"

text \<open>
  Two worlds whose libraries raise: one where the readability step fails on every
  document, one where the Markdown step fails on every content.
\<close>

definition readability_fails_world :: "string world" where
  "readability_fails_world =
     (allow_world (html_page ''<div></div>''))
       \<lparr>simple_json_from_html_string :=
          (\<lambda>html use_readability. Inl (OtherError ''readability failed''))\<rparr>"

definition markdownify_fails_world :: "string world" where
  "markdownify_fails_world =
     (allow_world (html_page ''<p>Hello</p>''))
       \<lparr>markdownify := (\<lambda>c style. Inl (OtherError ''maximum recursion depth exceeded''))\<rparr>"

section \<open>Lemmas on the library models and the server\<close>

lemma startswith_iff: "startswith s sub \<longleftrightarrow> (\<exists>suf. s = sub @ suf)"
proof
  assume "startswith s sub"
  then have "s = sub @ drop (length sub) s"
    unfolding startswith_def by (metis append_take_drop_id)
  then show "\<exists>suf. s = sub @ suf" ..
next
  assume "\<exists>suf. s = sub @ suf"
  then show "startswith s sub"
    unfolding startswith_def by auto
qed

lemma infix_Cons_iff:
  "(\<exists>pre suf. c # cs = pre @ sub @ suf) \<longleftrightarrow>
   (\<exists>suf. c # cs = sub @ suf) \<or> (\<exists>pre suf. cs = pre @ sub @ suf)"
proof
  assume "\<exists>pre suf. c # cs = pre @ sub @ suf"
  then obtain pre suf where e: "c # cs = pre @ sub @ suf" by blast
  show "(\<exists>suf. c # cs = sub @ suf) \<or> (\<exists>pre suf. cs = pre @ sub @ suf)"
  proof (cases pre)
    case Nil
    with e have "c # cs = sub @ suf" by simp
    then show ?thesis by blast
  next
    case (Cons p ps)
    with e have "cs = ps @ sub @ suf" by simp
    then show ?thesis by blast
  qed
next
  assume "(\<exists>suf. c # cs = sub @ suf) \<or> (\<exists>pre suf. cs = pre @ sub @ suf)"
  then show "\<exists>pre suf. c # cs = pre @ sub @ suf"
  proof
    assume "\<exists>suf. c # cs = sub @ suf"
    then obtain suf where "c # cs = sub @ suf" ..
    then have "c # cs = [] @ sub @ suf" by simp
    then show ?thesis by (rule_tac x = "[]" in exI) (rule exI)
  next
    assume "\<exists>pre suf. cs = pre @ sub @ suf"
    then obtain pre suf where "cs = pre @ sub @ suf" by blast
    then have "c # cs = (c # pre) @ sub @ suf" by simp
    then show ?thesis by (rule_tac x = "c # pre" in exI) (rule exI)
  qed
qed

lemma str_contains_iff:
  "str_contains sub s \<longleftrightarrow> (\<exists>pre suf. s = pre @ sub @ suf)"
proof (induction s)
  case Nil
  show ?case by auto
next
  case (Cons c cs)
  show ?case
    by (simp only: str_contains.simps startswith_iff infix_Cons_iff Cons.IH)
qed

lemma map_infix_conv:
  "(\<exists>pre' suf'. map f v = pre' @ t @ suf') \<longleftrightarrow>
   (\<exists>pre mid suf. v = pre @ mid @ suf \<and> map f mid = t)"
proof
  assume "\<exists>pre' suf'. map f v = pre' @ t @ suf'"
  then obtain pre' suf' where e: "map f v = pre' @ (t @ suf')" by blast
  from map_eq_append_conv [THEN iffD1, OF e]
  obtain pre rest where 1: "v = pre @ rest" and 2: "t @ suf' = map f rest" by blast
  from map_eq_append_conv [THEN iffD1, OF 2 [symmetric]]
  obtain mid suf where 3: "rest = mid @ suf" and t: "t = map f mid" by blast
  from t have 4: "map f mid = t" by simp
  from 1 3 4 show "\<exists>pre mid suf. v = pre @ mid @ suf \<and> map f mid = t"
    by blast
next
  assume "\<exists>pre mid suf. v = pre @ mid @ suf \<and> map f mid = t"
  then obtain pre mid suf where 1: "v = pre @ mid @ suf" and 2: "map f mid = t"
    by blast
  have "map f v = map f pre @ t @ map f suf"
    using 1 2 by simp
  then show "\<exists>pre' suf'. map f v = pre' @ t @ suf'" by blast
qed

lemma py_lower_text_html: "py_lower ''text/html'' = ''text/html''"
  by code_simp

lemma contains_ci_code:
  "contains_ci ''text/html'' v \<longleftrightarrow> str_contains ''text/html'' (py_lower v)"
proof -
  have "str_contains ''text/html'' (py_lower v) \<longleftrightarrow>
        (\<exists>pre' suf'. map py_lower_char v = pre' @ ''text/html'' @ suf')"
    unfolding py_lower_def by (rule str_contains_iff)
  also have "\<dots> \<longleftrightarrow>
        (\<exists>pre mid suf. v = pre @ mid @ suf \<and> map py_lower_char mid = ''text/html'')"
    by (rule map_infix_conv)
  also have "\<dots> \<longleftrightarrow> contains_ci ''text/html'' v"
    unfolding contains_ci_def py_lower_text_html unfolding py_lower_def ..
  finally show ?thesis ..
qed

lemma check_result:
  assumes "get_robots_txt_url env url = Inr ru"
  shows "check_may_autonomously_fetch_url env url ua lg = (Inr (), lg @ [(ru, [])])"
  using assms
  by (simp add: check_may_autonomously_fetch_url_def check_try_body_def requests_get_def
      split: sum.splits prod.splits)

lemma fetch_url_log:
  "snd (fetch_url env url ua force_raw lg) = lg @ [(url, [(''User-Agent'', ua)])]"
  by (simp add: fetch_url_def requests_get_def Let_def split: sum.splits option.splits)

lemma fetch_after_check:
  assumes "get_robots_txt_url env url = Inr ru"
  shows "fetch env url ml si raw lg =
     (case fetch_url env url DEFAULT_USER_AGENT_AUTONOMOUS raw (lg @ [(ru, [])]) of
        (Inl e, lg2) \<Rightarrow> (Inl e, lg2)
      | (Inr cont, lg2) \<Rightarrow> (Inr (paginate cont si ml), lg2))"
  by (simp add: fetch_def check_result [OF assms])

lemma fetch_url_ok:
  assumes "http_get env (url, [(''User-Agent'', ua)]) = Inr r"
    and "raise_for_status r = None"
  shows "fetch_url env url ua force_raw lg =
     (if \<not> force_raw \<and> str_contains ''text/html''
            (py_lower (headers_get (headers r) ''content-type'' []))
      then extract_content_from_html env (resp_text r) else Inr (resp_text r),
      lg @ [(url, [(''User-Agent'', ua)])])"
  using assms by (simp add: fetch_url_def requests_get_def Let_def)

lemma fetch_url_status_error:
  assumes "http_get env (url, [(''User-Agent'', ua)]) = Inr r"
    and "raise_for_status r = Some e"
  shows "fetch_url env url ua force_raw lg = (Inl e, lg @ [(url, [(''User-Agent'', ua)])])"
  using assms by (simp add: fetch_url_def requests_get_def)

lemma paginate_length:
  "0 < max_length \<Longrightarrow> 0 \<le> start_index \<Longrightarrow>
     int (length (paginate cont start_index max_length)) \<le> max_length"
  by (auto simp: paginate_def py_slice_def Let_def min_def max_def)

lemma classify_code:
  "classify (map_of hs ''content-type'') = Html \<longleftrightarrow>
     str_contains ''text/html'' (py_lower (headers_get hs ''content-type'' []))"
proof -
  have k: "py_lower ''content-type'' = ''content-type''" by code_simp
  have n: "\<not> str_contains ''text/html'' (py_lower [])" by code_simp
  show ?thesis
    by (cases "map_of hs ''content-type''")
       (simp_all only: classify_def headers_get_def k n contains_ci_code option.case
          content_class.distinct if_False if_True refl split: if_splits, simp_all)
qed

section \<open>The claims\<close>

text \<open>
  Claim C1: in Autonomous mode a robots document that refuses the URL must abort the
  fetch with a policy error before the target is retrieved. The code raises the
  \<open>ValueError\<close> inside the \<open>try\<close> whose \<open>except Exception: pass\<close> then ends it: on a site
  whose robots document refuses everything the parser answers \<open>False\<close>, the body of the
  \<open>try\<close> raises, the check returns normally all the same, and \<open>fetch\<close> issues the GET
  of the target and returns its content.
\<close>

theorem robots_denial_is_swallowed:
  "protego_can_fetch deny_world (resp_text robots_deny_all)
      DEFAULT_USER_AGENT_AUTONOMOUS demo_url = Inr False
   \<and> check_try_body deny_world demo_robots_url demo_url DEFAULT_USER_AGENT_AUTONOMOUS []
       = (Inl (ValueError (not_allowed_message demo_url DEFAULT_USER_AGENT_AUTONOMOUS)),
          [(demo_robots_url, [])])
   \<and> check_may_autonomously_fetch_url deny_world demo_url DEFAULT_USER_AGENT_AUTONOMOUS []
       = (Inr (), [(demo_robots_url, [])])
   \<and> fetch deny_world demo_url 5000 0 False []
       = (Inr ''0123456789ABCDEF'',
          [(demo_robots_url, []),
           (demo_url, [(''User-Agent'', DEFAULT_USER_AGENT_AUTONOMOUS)])])"
  by code_simp

text \<open>
  Claim C2: on the normalized text \<open>0123456789ABCDEF\<close> with \<open>start_index = 3\<close> and
  \<open>max_length = 10\<close> the claim expects the nine characters \<open>3456789AB\<close>. The slice
  \<open>content[3:13]\<close> has ten characters, so the result differs.
\<close>

theorem pagination_scenario_counterexample:
  "paginate ''0123456789ABCDEF'' 3 10 \<noteq> ''3456789AB''
   \<and> fst (fetch (allow_world (json_page 200)) demo_url 10 3 False []) \<noteq> Inr ''3456789AB''"
  by code_simp

text \<open>
  Claim C2, amended: on that text with \<open>start_index = 3\<close> and \<open>max_length = 10\<close> the
  pagination returns the ten characters \<open>3456789ABC\<close>, and so does \<open>fetch\<close> on a page
  with that text.
\<close>

theorem pagination_scenario:
  "paginate ''0123456789ABCDEF'' 3 10 = ''3456789ABC''
   \<and> fst (fetch (allow_world (json_page 200)) demo_url 10 3 False []) = Inr ''3456789ABC''"
  by code_simp

text \<open>
  Claim C3: when the retrieval or the parse of the robots document fails (a network
  error, a status other than 200, a document the parser rejects), the check returns
  normally after its one GET of the robots document, and \<open>fetch\<close> goes on to the GET of
  the target: the requests issued are exactly these two, and the outcome of \<open>fetch\<close> is
  the outcome of the retrieval of the target, paginated.
\<close>

theorem robots_fail_open:
  assumes "get_robots_txt_url env url = Inr ru"
    and "robots_undeterminable env ru"
  shows "check_may_autonomously_fetch_url env url DEFAULT_USER_AGENT_AUTONOMOUS lg
           = (Inr (), lg @ [(ru, [])])
   \<and> snd (fetch env url max_length start_index raw lg)
           = lg @ [(ru, []), (url, [(''User-Agent'', DEFAULT_USER_AGENT_AUTONOMOUS)])]
   \<and> fst (fetch env url max_length start_index raw lg)
           = (case fst (fetch_url env url DEFAULT_USER_AGENT_AUTONOMOUS raw (lg @ [(ru, [])])) of
                Inl e \<Rightarrow> Inl e
              | Inr cont \<Rightarrow> Inr (paginate cont start_index max_length))"
proof (intro conjI)
  show "check_may_autonomously_fetch_url env url DEFAULT_USER_AGENT_AUTONOMOUS lg
           = (Inr (), lg @ [(ru, [])])"
    by (rule check_result [OF assms(1)])
next
  have "snd (fetch env url max_length start_index raw lg)
          = snd (fetch_url env url DEFAULT_USER_AGENT_AUTONOMOUS raw (lg @ [(ru, [])]))"
    by (simp add: fetch_after_check [OF assms(1)] split: prod.splits sum.splits)
  then show "snd (fetch env url max_length start_index raw lg)
           = lg @ [(ru, []), (url, [(''User-Agent'', DEFAULT_USER_AGENT_AUTONOMOUS)])]"
    by (simp add: fetch_url_log)
next
  show "fst (fetch env url max_length start_index raw lg)
           = (case fst (fetch_url env url DEFAULT_USER_AGENT_AUTONOMOUS raw (lg @ [(ru, [])])) of
                Inl e \<Rightarrow> Inl e
              | Inr cont \<Rightarrow> Inr (paginate cont start_index max_length))"
    by (simp add: fetch_after_check [OF assms(1)] split: prod.splits sum.splits)
qed

theorem robots_fail_open_witness:
  "get_robots_txt_url offline_robots_world demo_url = Inr demo_robots_url
   \<and> robots_undeterminable offline_robots_world demo_robots_url
   \<and> check_may_autonomously_fetch_url offline_robots_world demo_url
        DEFAULT_USER_AGENT_AUTONOMOUS [] = (Inr (), [(demo_robots_url, [])])
   \<and> snd (fetch offline_robots_world demo_url 5000 0 False [])
        = [(demo_robots_url, []), (demo_url, [(''User-Agent'', DEFAULT_USER_AGENT_AUTONOMOUS)])]
   \<and> fst (fetch offline_robots_world demo_url 5000 0 False []) = Inr ''0123456789ABCDEF''"
proof -
  have h1: "get_robots_txt_url offline_robots_world demo_url = Inr demo_robots_url"
    by code_simp
  have h2: "robots_undeterminable offline_robots_world demo_robots_url"
    by code_simp
  have v: "fst (fetch_url offline_robots_world demo_url DEFAULT_USER_AGENT_AUTONOMOUS False
             ([] @ [(demo_robots_url, [])])) = Inr ''0123456789ABCDEF''"
    by code_simp
  have p: "paginate ''0123456789ABCDEF'' 0 5000 = ''0123456789ABCDEF''"
    by code_simp
  note t = robots_fail_open [OF h1 h2, of "[]" 5000 0 False]
  from t have c1: "check_may_autonomously_fetch_url offline_robots_world demo_url
        DEFAULT_USER_AGENT_AUTONOMOUS [] = (Inr (), [(demo_robots_url, [])])"
    by simp
  from t have c2: "snd (fetch offline_robots_world demo_url 5000 0 False [])
        = [(demo_robots_url, []), (demo_url, [(''User-Agent'', DEFAULT_USER_AGENT_AUTONOMOUS)])]"
    by simp
  from t have "fst (fetch offline_robots_world demo_url 5000 0 False [])
        = (case fst (fetch_url offline_robots_world demo_url DEFAULT_USER_AGENT_AUTONOMOUS False
             ([] @ [(demo_robots_url, [])])) of
                Inl e \<Rightarrow> Inl e
              | Inr cont \<Rightarrow> Inr (paginate cont 0 5000))"
    by blast
  then have c3: "fst (fetch offline_robots_world demo_url 5000 0 False []) = Inr ''0123456789ABCDEF''"
    by (simp only: v p sum.case)
  show ?thesis by (intro conjI h1 h2 c1 c2 c3)
qed

text \<open>
  Claim C4: for \<open>0 \<le> start_index < len(content)\<close> and \<open>max_length > 0\<close> the pagination
  returns the \<open>min(max_length, len(content) - start_index)\<close> characters of the content
  that start at offset \<open>start_index\<close>.
\<close>

theorem paginate_window:
  assumes "0 \<le> start_index" and "start_index < int (length cont)" and "0 < max_length"
  shows "paginate cont start_index max_length
           = take (nat (min max_length (int (length cont) - start_index)))
               (drop (nat start_index) cont)
   \<and> int (length (paginate cont start_index max_length))
           = min max_length (int (length cont) - start_index)
   \<and> (\<forall>k. 0 \<le> k \<and> k < min max_length (int (length cont) - start_index) \<longrightarrow>
          paginate cont start_index max_length ! nat k = cont ! nat (start_index + k))"
  using assms
  apply (simp add: paginate_def py_slice_def Let_def min_def max_def)
  apply (auto simp: nat_add_distrib)
  done

theorem paginate_window_witness:
  "(0::int) \<le> 3 \<and> 3 < int (length ''0123456789ABCDEF'') \<and> (0::int) < 10
   \<and> paginate ''0123456789ABCDEF'' 3 10 = take 10 (drop 3 ''0123456789ABCDEF'')
   \<and> int (length (paginate ''0123456789ABCDEF'' 3 10)) = 10
   \<and> paginate ''0123456789ABCDEF'' 3 10 ! 9 = CHR ''C''"
proof -
  have h1: "(0::int) \<le> 3" by simp
  have h2: "3 < int (length ''0123456789ABCDEF'')" by simp
  have h3: "(0::int) < 10" by simp
  note t = paginate_window [OF h1 h2 h3]
  from t have c1: "paginate ''0123456789ABCDEF'' 3 10 = take 10 (drop 3 ''0123456789ABCDEF'')"
    by simp
  from t have c2: "int (length (paginate ''0123456789ABCDEF'' 3 10)) = 10"
    by simp
  from t have "(0::int) \<le> 9 \<and> 9 < min 10 (int (length ''0123456789ABCDEF'') - 3) \<longrightarrow>
      paginate ''0123456789ABCDEF'' 3 10 ! nat 9 = ''0123456789ABCDEF'' ! nat (3 + 9)"
    by blast
  then have c3: "paginate ''0123456789ABCDEF'' 3 10 ! 9 = CHR ''C''"
    by simp
  show ?thesis by (intro conjI h1 h2 h3 c1 c2 c3)
qed

text \<open>
  Claim C5: for \<open>start_index \<ge> len(content)\<close> the pagination returns the empty string,
  whatever \<open>max_length\<close> is, and \<open>fetch\<close> returns it as a result, not as an error.
\<close>

theorem paginate_past_end:
  assumes "int (length cont) \<le> start_index"
  shows "paginate cont start_index max_length = []
   \<and> (\<forall>env url raw lg ru lg2.
         get_robots_txt_url env url = Inr ru \<and>
         fetch_url env url DEFAULT_USER_AGENT_AUTONOMOUS raw (lg @ [(ru, [])]) = (Inr cont, lg2)
         \<longrightarrow> fetch env url max_length start_index raw lg = (Inr [], lg2))"
  using assms by (simp add: paginate_def fetch_after_check)

theorem paginate_past_end_witness:
  "int (length ''0123456789ABCDEF'') \<le> 16
   \<and> paginate ''0123456789ABCDEF'' 16 10 = []
   \<and> fetch (allow_world (json_page 200)) demo_url 10 16 False []
       = (Inr [], [(demo_robots_url, []),
                   (demo_url, [(''User-Agent'', DEFAULT_USER_AGENT_AUTONOMOUS)])])"
proof -
  have h: "int (length ''0123456789ABCDEF'') \<le> 16" by simp
  have g: "get_robots_txt_url (allow_world (json_page 200)) demo_url = Inr demo_robots_url"
    by code_simp
  have f: "fetch_url (allow_world (json_page 200)) demo_url DEFAULT_USER_AGENT_AUTONOMOUS False
             ([] @ [(demo_robots_url, [])])
           = (Inr ''0123456789ABCDEF'',
              [(demo_robots_url, []),
               (demo_url, [(''User-Agent'', DEFAULT_USER_AGENT_AUTONOMOUS)])])"
    by code_simp
  note t = paginate_past_end [OF h, of 10]
  from t have c1: "paginate ''0123456789ABCDEF'' 16 10 = []" by blast
  from t g f have c2: "fetch (allow_world (json_page 200)) demo_url 10 16 False []
       = (Inr [], [(demo_robots_url, []),
                   (demo_url, [(''User-Agent'', DEFAULT_USER_AGENT_AUTONOMOUS)])])"
    by blast
  show ?thesis by (intro conjI h c1 c2)
qed

text \<open>
  Claim C10: when \<open>fetch\<close> returns a string, with \<open>max_length > 0\<close> and
  \<open>start_index \<ge> 0\<close>, the string has at most \<open>max_length\<close> characters, whatever the
  length of the content.
\<close>

theorem fetch_length_bound:
  assumes "fetch env url max_length start_index raw lg = (Inr s, lg')"
    and "0 < max_length" and "0 \<le> start_index"
  shows "int (length s) \<le> max_length"
proof -
  from assms(1) obtain cont where "s = paginate cont start_index max_length"
    by (auto simp: fetch_def split: prod.splits sum.splits)
  then show ?thesis
    using paginate_length [OF assms(2,3)] by simp
qed

theorem fetch_length_bound_witness:
  "fetch (allow_world (json_page 200)) demo_url 10 3 False []
     = (Inr ''3456789ABC'',
        [(demo_robots_url, []), (demo_url, [(''User-Agent'', DEFAULT_USER_AGENT_AUTONOMOUS)])])
   \<and> (0::int) < 10 \<and> (0::int) \<le> 3
   \<and> int (length ''3456789ABC'') \<le> 10"
proof -
  have h1: "fetch (allow_world (json_page 200)) demo_url 10 3 False []
     = (Inr ''3456789ABC'',
        [(demo_robots_url, []), (demo_url, [(''User-Agent'', DEFAULT_USER_AGENT_AUTONOMOUS)])])"
    by code_simp
  have h2: "(0::int) < 10" by simp
  have h3: "(0::int) \<le> 3" by simp
  note c = fetch_length_bound [OF h1 h2 h3]
  show ?thesis by (intro conjI h1 h2 h3 c)
qed

text \<open>
  Claim C8: the simplifier is claimed to return the fixed failure string instead of
  raising, so that it always returns some string. \<open>extract_content_from_html\<close> has no
  \<open>try\<close>: an exception of the readability step or of the Markdown step leaves it, and
  \<open>fetch\<close> with it.
\<close>

theorem simplifier_raises_counterexample:
  "extract_content_from_html readability_fails_world ''<div></div>''
     = Inl (OtherError ''readability failed'')
   \<and> fst (fetch readability_fails_world demo_url 5000 0 False [])
     = Inl (OtherError ''readability failed'')
   \<and> extract_content_from_html markdownify_fails_world ''<p>Hello</p>''
     = Inl (OtherError ''maximum recursion depth exceeded'')
   \<and> fst (fetch markdownify_fails_world demo_url 5000 0 False [])
     = Inl (OtherError ''maximum recursion depth exceeded'')"
  by code_simp

text \<open>
  Claim C8, amended: when the readability step returns and its content is \<open>None\<close> or
  empty, \<open>extract_content_from_html\<close> returns the fixed failure string; when the content
  is not empty the result is that of the Markdown step, a string when that step returns;
  an exception of the readability step is the outcome of the simplifier.
\<close>

theorem simplifier_outcome:
  "(\<forall>ret. simple_json_from_html_string env html True = Inr ret
           \<and> (content ret = None \<or> content ret = Some [])
         \<longrightarrow> extract_content_from_html env html = Inr simplify_failed)
   \<and> (\<forall>ret c. simple_json_from_html_string env html True = Inr ret
           \<and> content ret = Some c \<and> c \<noteq> []
         \<longrightarrow> extract_content_from_html env html = markdownify env c ATX)
   \<and> (\<forall>e. simple_json_from_html_string env html True = Inl e
         \<longrightarrow> extract_content_from_html env html = Inl e)"
  by (auto simp: extract_content_from_html_def)

theorem simplifier_outcome_witness:
  "simple_json_from_html_string (allow_world (html_page ''<div></div>'')) ''<div></div>'' True
      = Inr \<lparr>content = None\<rparr>
   \<and> extract_content_from_html (allow_world (html_page ''<div></div>'')) ''<div></div>''
      = Inr ''<e>Page failed to be simplified from HTML<e>''
   \<and> simple_json_from_html_string (allow_world (html_page ''<p>Hello</p>'')) ''<p>Hello</p>'' True
      = Inr \<lparr>content = Some ''<p>Hello</p>''\<rparr>
   \<and> extract_content_from_html (allow_world (html_page ''<p>Hello</p>'')) ''<p>Hello</p>''
      = Inr ''<p>Hello</p>''
   \<and> simple_json_from_html_string readability_fails_world ''<div></div>'' True
      = Inl (OtherError ''readability failed'')
   \<and> extract_content_from_html readability_fails_world ''<div></div>''
      = Inl (OtherError ''readability failed'')"
proof -
  have h1: "simple_json_from_html_string (allow_world (html_page ''<div></div>''))
      ''<div></div>'' True = Inr \<lparr>content = None\<rparr>"
    by code_simp
  have h2: "content \<lparr>content = None\<rparr> = None \<or> content \<lparr>content = None\<rparr> = Some []"
    by simp
  from simplifier_outcome [THEN conjunct1, rule_format, OF conjI, OF h1 h2]
  have c1: "extract_content_from_html (allow_world (html_page ''<div></div>'')) ''<div></div>''
      = Inr ''<e>Page failed to be simplified from HTML<e>''"
    by (simp only: simplify_failed_def)
  have h3: "simple_json_from_html_string (allow_world (html_page ''<p>Hello</p>''))
      ''<p>Hello</p>'' True = Inr \<lparr>content = Some ''<p>Hello</p>''\<rparr>"
    by code_simp
  have h4: "content \<lparr>content = Some ''<p>Hello</p>''\<rparr> = Some ''<p>Hello</p>''
            \<and> ''<p>Hello</p>'' \<noteq> []"
    by simp
  have m: "markdownify (allow_world (html_page ''<p>Hello</p>'')) ''<p>Hello</p>'' ATX
            = Inr ''<p>Hello</p>''"
    by code_simp
  from simplifier_outcome [THEN conjunct2, THEN conjunct1, rule_format, OF conjI, OF h3 h4]
  have c2: "extract_content_from_html (allow_world (html_page ''<p>Hello</p>'')) ''<p>Hello</p>''
      = Inr ''<p>Hello</p>''"
    by (simp only: m)
  have h5: "simple_json_from_html_string readability_fails_world ''<div></div>'' True
      = Inl (OtherError ''readability failed'')"
    by code_simp
  note c3 = simplifier_outcome [THEN conjunct2, THEN conjunct2, rule_format, OF h5]
  show ?thesis by (intro conjI h1 c1 h3 c2 h5 c3)
qed


text \<open>
  Claim C6: every status code that is not a success is claimed to surface as an error.
  \<open>raise_for_status\<close> raises for 400 to 599 only: a target answering 300 is not an
  error, and \<open>fetch\<close> returns its body.
\<close>

theorem status_300_counterexample:
  "status_code (json_page 300) = 300
   \<and> http_get (allow_world (json_page 300))
        (demo_url, [(''User-Agent'', DEFAULT_USER_AGENT_AUTONOMOUS)]) = Inr (json_page 300)
   \<and> fetch (allow_world (json_page 300)) demo_url 5000 0 False []
       = (Inr ''0123456789ABCDEF'',
          [(demo_robots_url, []),
           (demo_url, [(''User-Agent'', DEFAULT_USER_AGENT_AUTONOMOUS)])])"
  by code_simp

text \<open>
  Claim C6, amended: when the URL parses and the target answers with a status code from
  400 to 599, \<open>fetch\<close> fails with the \<open>HTTPError\<close> that holds the response, that is its
  status code and its whole body; with any other status code no status error is raised
  and the body is processed as content.
\<close>

theorem http_status_error:
  assumes "get_robots_txt_url env url = Inr ru"
    and "http_get env (url, [(''User-Agent'', DEFAULT_USER_AGENT_AUTONOMOUS)]) = Inr r"
  shows "(400 \<le> status_code r \<and> status_code r < 600 \<longrightarrow>
            fst (fetch env url max_length start_index raw lg) = Inl (HTTPError r))
   \<and> (\<not> (400 \<le> status_code r \<and> status_code r < 600) \<longrightarrow>
            fst (fetch env url max_length start_index raw lg)
              = (case (if \<not> raw \<and> str_contains ''text/html''
                            (py_lower (headers_get (headers r) ''content-type'' []))
                       then extract_content_from_html env (resp_text r)
                       else Inr (resp_text r)) of
                   Inl e \<Rightarrow> Inl e
                 | Inr cont \<Rightarrow> Inr (paginate cont start_index max_length)))"
proof (intro conjI impI)
  assume "400 \<le> status_code r \<and> status_code r < 600"
  then have "raise_for_status r = Some (HTTPError r)"
    by (simp add: raise_for_status_def)
  from fetch_url_status_error [OF assms(2) this]
  show "fst (fetch env url max_length start_index raw lg) = Inl (HTTPError r)"
    by (simp add: fetch_after_check [OF assms(1)])
next
  assume "\<not> (400 \<le> status_code r \<and> status_code r < 600)"
  then have "raise_for_status r = None"
    by (simp add: raise_for_status_def)
  from fetch_url_ok [OF assms(2) this]
  show "fst (fetch env url max_length start_index raw lg)
              = (case (if \<not> raw \<and> str_contains ''text/html''
                            (py_lower (headers_get (headers r) ''content-type'' []))
                       then extract_content_from_html env (resp_text r)
                       else Inr (resp_text r)) of
                   Inl e \<Rightarrow> Inl e
                 | Inr cont \<Rightarrow> Inr (paginate cont start_index max_length))"
    by (simp add: fetch_after_check [OF assms(1)] split: sum.splits)
qed

theorem http_status_error_witness:
  "get_robots_txt_url (allow_world (json_page 404)) demo_url = Inr demo_robots_url
   \<and> http_get (allow_world (json_page 404))
        (demo_url, [(''User-Agent'', DEFAULT_USER_AGENT_AUTONOMOUS)]) = Inr (json_page 404)
   \<and> 400 \<le> status_code (json_page 404) \<and> status_code (json_page 404) < 600
   \<and> fst (fetch (allow_world (json_page 404)) demo_url 5000 0 False [])
        = Inl (HTTPError (json_page 404))
   \<and> resp_text (json_page 404) = ''0123456789ABCDEF''"
proof -
  have h1: "get_robots_txt_url (allow_world (json_page 404)) demo_url = Inr demo_robots_url"
    by code_simp
  have h2: "http_get (allow_world (json_page 404))
        (demo_url, [(''User-Agent'', DEFAULT_USER_AGENT_AUTONOMOUS)]) = Inr (json_page 404)"
    by code_simp
  have h3: "400 \<le> status_code (json_page 404)" by (simp add: json_page_def)
  have h4: "status_code (json_page 404) < 600" by (simp add: json_page_def)
  have h5: "resp_text (json_page 404) = ''0123456789ABCDEF''" by (simp add: json_page_def)
  from http_status_error [OF h1 h2, of 5000 0 False "[]"] h3 h4
  have c: "fst (fetch (allow_world (json_page 404)) demo_url 5000 0 False [])
        = Inl (HTTPError (json_page 404))"
    by blast
  show ?thesis by (intro conjI h1 h2 h3 h4 c h5)
qed

text \<open>
  Claim C7: for a response that passed the status check, \<open>fetch_url\<close> simplifies the body
  exactly when the class of the content type is \<open>Html\<close> (the header is present and its
  value holds \<open>text/html\<close> up to case) and \<open>force_raw\<close> is off; when the class is
  \<open>Other\<close> the result is the body as it is, with \<open>force_raw\<close> on or off.
\<close>

theorem content_type_classification:
  assumes "http_get env (url, [(''User-Agent'', ua)]) = Inr r"
    and "raise_for_status r = None"
  shows "fetch_url env url ua force_raw lg
           = (if classify (map_of (headers r) ''content-type'') = Html \<and> \<not> force_raw
              then extract_content_from_html env (resp_text r)
              else Inr (resp_text r),
              lg @ [(url, [(''User-Agent'', ua)])])
   \<and> (classify (map_of (headers r) ''content-type'') = Other \<longrightarrow>
         fst (fetch_url env url ua True lg) = Inr (resp_text r)
         \<and> fst (fetch_url env url ua False lg) = Inr (resp_text r))"
proof -
  have o: "classify h = Other \<longleftrightarrow> classify h \<noteq> Html" for h
    by (cases "classify h") simp_all
  show ?thesis
    by (simp add: fetch_url_ok [OF assms] classify_code o)
qed

theorem content_type_classification_witness:
  "http_get (allow_world (html_page ''<p>Hello</p>''))
       (demo_url, [(''User-Agent'', DEFAULT_USER_AGENT_AUTONOMOUS)])
     = Inr (html_page ''<p>Hello</p>'')
   \<and> raise_for_status (html_page ''<p>Hello</p>'') = None
   \<and> classify (map_of (headers (html_page ''<p>Hello</p>'')) ''content-type'') = Html
   \<and> fetch_url (allow_world (html_page ''<p>Hello</p>'')) demo_url
        DEFAULT_USER_AGENT_AUTONOMOUS False []
       = (extract_content_from_html (allow_world (html_page ''<p>Hello</p>'')) ''<p>Hello</p>'',
          [(demo_url, [(''User-Agent'', DEFAULT_USER_AGENT_AUTONOMOUS)])])
   \<and> http_get (allow_world (json_page 200))
       (demo_url, [(''User-Agent'', DEFAULT_USER_AGENT_AUTONOMOUS)]) = Inr (json_page 200)
   \<and> raise_for_status (json_page 200) = None
   \<and> classify (map_of (headers (json_page 200)) ''content-type'') = Other
   \<and> fst (fetch_url (allow_world (json_page 200)) demo_url
        DEFAULT_USER_AGENT_AUTONOMOUS True []) = Inr ''0123456789ABCDEF''
   \<and> fst (fetch_url (allow_world (json_page 200)) demo_url
        DEFAULT_USER_AGENT_AUTONOMOUS False []) = Inr ''0123456789ABCDEF''"
proof -
  have h1: "http_get (allow_world (html_page ''<p>Hello</p>''))
       (demo_url, [(''User-Agent'', DEFAULT_USER_AGENT_AUTONOMOUS)])
     = Inr (html_page ''<p>Hello</p>'')"
    by code_simp
  have h2: "raise_for_status (html_page ''<p>Hello</p>'') = None"
    by code_simp
  have k1: "str_contains ''text/html''
      (py_lower (headers_get (headers (html_page ''<p>Hello</p>'')) ''content-type'' []))"
    by code_simp
  have c1: "classify (map_of (headers (html_page ''<p>Hello</p>'')) ''content-type'') = Html"
    using k1 by (simp only: classify_code)
  have t1: "resp_text (html_page ''<p>Hello</p>'') = ''<p>Hello</p>''"
    by (simp add: html_page_def)
  from content_type_classification [OF h1 h2, of False "[]"] c1
  have c2: "fetch_url (allow_world (html_page ''<p>Hello</p>'')) demo_url
        DEFAULT_USER_AGENT_AUTONOMOUS False []
       = (extract_content_from_html (allow_world (html_page ''<p>Hello</p>'')) ''<p>Hello</p>'',
          [(demo_url, [(''User-Agent'', DEFAULT_USER_AGENT_AUTONOMOUS)])])"
    by (simp only: t1 simp_thms if_True append_Nil)
  have h3: "http_get (allow_world (json_page 200))
       (demo_url, [(''User-Agent'', DEFAULT_USER_AGENT_AUTONOMOUS)]) = Inr (json_page 200)"
    by code_simp
  have h4: "raise_for_status (json_page 200) = None"
    by code_simp
  have k2: "\<not> str_contains ''text/html''
      (py_lower (headers_get (headers (json_page 200)) ''content-type'' []))"
    by code_simp
  have c3: "classify (map_of (headers (json_page 200)) ''content-type'') = Other"
    using k2 classify_code [of "headers (json_page 200)"]
    by (cases "classify (map_of (headers (json_page 200)) ''content-type'')") simp_all
  have t2: "resp_text (json_page 200) = ''0123456789ABCDEF''"
    by (simp add: json_page_def)
  note o = content_type_classification [OF h3 h4, of True "[]", THEN conjunct2, rule_format, OF c3]
  from o [THEN conjunct1]
  have c4: "fst (fetch_url (allow_world (json_page 200)) demo_url
        DEFAULT_USER_AGENT_AUTONOMOUS True []) = Inr ''0123456789ABCDEF''"
    by (simp only: t2)
  from o [THEN conjunct2]
  have c5: "fst (fetch_url (allow_world (json_page 200)) demo_url
        DEFAULT_USER_AGENT_AUTONOMOUS False []) = Inr ''0123456789ABCDEF''"
    by (simp only: t2)
  show ?thesis by (intro conjI h1 h2 c1 c2 h3 h4 c3 c4 c5)
qed

text \<open>
  Claim C9: the robots URL of a URL that parses is \<open>urlunparse\<close> of the scheme and the
  netloc of the URL with the path \<open>/robots.txt\<close> and empty parameters, query and
  fragment: the scheme and a colon when there is a scheme, the authority part, and
  \<open>/robots.txt\<close>. It depends on the scheme and the netloc only.
\<close>

theorem robots_url_derivation:
  assumes "urlparse env url = Inr p"
  shows "get_robots_txt_url env url
           = Inr (urlunparse env (scheme p, netloc p, ''/robots.txt'', [], [], []))
   \<and> get_robots_txt_url env url
           = Inr ((if scheme p = [] then [] else scheme p @ '':'')
                  @ (if netloc p \<noteq> [] \<or> (scheme p \<noteq> [] \<and> scheme p \<in> set (uses_netloc env))
                     then ''//'' @ netloc p else [])
                  @ ''/robots.txt'')
   \<and> (\<forall>url' p'. urlparse env url' = Inr p' \<and> scheme p' = scheme p \<and> netloc p' = netloc p
          \<longrightarrow> get_robots_txt_url env url' = get_robots_txt_url env url)"
  using assms
  by (auto simp: get_robots_txt_url_def urlunparse_def urlunsplit_def Let_def)

theorem robots_url_derivation_witness:
  "urlparse (allow_world (json_page 200)) demo_url
     = Inr \<lparr>scheme = ''https'', netloc = ''example.com'', path = ''/page'',
            params = [], query = ''q=1'', fragment = ''top''\<rparr>
   \<and> get_robots_txt_url (allow_world (json_page 200)) ''https://example.com/page?q=1#top''
     = Inr ''https://example.com/robots.txt''"
proof -
  have h: "urlparse (allow_world (json_page 200)) demo_url
     = Inr \<lparr>scheme = ''https'', netloc = ''example.com'', path = ''/page'',
            params = [], query = ''q=1'', fragment = ''top''\<rparr>"
    by code_simp
  have u: "''https'' \<in> set (uses_netloc (allow_world (json_page 200)))"
    by code_simp
  have d: "demo_url = ''https://example.com/page?q=1#top''"
    by (simp add: demo_url_def)
  from robots_url_derivation [OF h, THEN conjunct2, THEN conjunct1] u
  have c: "get_robots_txt_url (allow_world (json_page 200)) ''https://example.com/page?q=1#top''
     = Inr ''https://example.com/robots.txt''"
    by (simp add: d)
  show ?thesis by (intro conjI h c)
qed

end
